theory Spec2Isabelle
  imports Complex_Main "HOL-Library.Signed_Division"
begin

section \<open>Data model of the event-search core of astronomy.c\<close>

text \<open>
  The C type \<open>double\<close> is modelled by \<open>real\<close>: rounding, infinities and NaN are
  outside this model, so every statement below is about the control flow and the exact
  arithmetic of the search code.

  The enumeration \<open>astro_status_t\<close> is split: \<open>ASTRO_SUCCESS\<close> is the \<open>Inr\<close> side of a
  result, every other status is a value of \<open>astro_error\<close> on the \<open>Inl\<close> side. The
  payload of a failed result is NaN in the C code and absent here.
\<close>

datatype astro_error =
    ASTRO_NO_CONVERGE
  | ASTRO_SEARCH_FAILURE
  | ASTRO_INTERNAL_ERROR
  | ASTRO_INVALID_PARAMETER
  | ASTRO_INVALID_BODY
  | ASTRO_EARTH_NOT_ALLOWED
  | ASTRO_NO_MOON_QUARTER
  | ASTRO_WRONG_MOON_QUARTER
  | ASTRO_BAD_VECTOR
  | ASTRO_BAD_TIME

record astro_time_t =
  ut :: real
  tt :: real

type_synonym astro_func_result_t = "astro_error + real"
type_synonym astro_search_result_t = "astro_error + astro_time_t"
type_synonym astro_search_func_t = "astro_time_t \<Rightarrow> astro_func_result_t"

text \<open>
  \<open>TerrestrialTime\<close> (the Delta-T table lookup) is a parameter \<open>TT\<close> of every function
  that builds a time value: the search code only adds day offsets and reads the two
  coordinates.
\<close>

definition UniversalTime :: "(real \<Rightarrow> real) \<Rightarrow> real \<Rightarrow> astro_time_t" where
  "UniversalTime TT u = \<lparr>ut = u, tt = TT u\<rparr>"

definition Astronomy_AddDays :: "(real \<Rightarrow> real) \<Rightarrow> astro_time_t \<Rightarrow> real \<Rightarrow> astro_time_t" where
  "Astronomy_AddDays TT time days = (let s = ut time + days in \<lparr>ut = s, tt = TT s\<rparr>)"

definition SECONDS_PER_DAY :: real where
  "SECONDS_PER_DAY = 24 * 3600"


definition MEAN_SYNODIC_MONTH :: real where
  "MEAN_SYNODIC_MONTH = 29.530588"

text \<open>
  The time scale past the last entry of the Delta-T table (modified Julian day 61680,
  that is \<open>ut \<ge> 10135.5\<close>): there \<open>DeltaT\<close> returns the last tabulated value, 73.66 s.
  Closed examples below use it with times in that range.
\<close>

definition TT_late :: "real \<Rightarrow> real" where
  "TT_late u = u + 73.66 / 86400"


section \<open>Quadratic interpolation\<close>

text \<open>
  \<open>QuadInterp\<close> returns 0 or 1 and writes three out-parameters; the model returns
  \<open>None\<close> or \<open>Some (x, t, df_dt)\<close>.
\<close>

definition QuadInterp ::
  "real \<Rightarrow> real \<Rightarrow> real \<Rightarrow> real \<Rightarrow> real \<Rightarrow> (real \<times> real \<times> real) option" where
  "QuadInterp tm dt fa fm fb =
    (let Q = (fb + fa) / 2 - fm;
         R = (fb - fa) / 2;
         S = fm
     in if Q = 0 then
          (if R = 0 then None
           else let x = - S / R in
             if x < -1 \<or> x > 1 then None
             else Some (x, tm + x * dt, (2 * Q * x + R) / dt))
        else
          (let u = R * R - 4 * Q * S in
           if u \<le> 0 then None
           else let ru = sqrt u;
                    x1 = (- R + ru) / (2 * Q);
                    x2 = (- R - ru) / (2 * Q)
             in if -1 \<le> x1 \<and> x1 \<le> 1 then
                  (if -1 \<le> x2 \<and> x2 \<le> 1 then None
                   else Some (x1, tm + x1 * dt, (2 * Q * x1 + R) / dt))
                else if -1 \<le> x2 \<and> x2 \<le> 1 then
                  Some (x2, tm + x2 * dt, (2 * Q * x2 + R) / dt)
                else None))"

section \<open>The core search engine\<close>

text \<open>The local variables of \<open>Astronomy_Search\<close> that live across loop iterations.\<close>

record search_state =
  iter :: nat
  calc_fmid :: bool
  t1 :: astro_time_t
  t2 :: astro_time_t
  f1 :: real
  f2 :: real
  fmid :: real

text \<open>
  What one pass through part of the loop body does: leave the function with a result,
  go to the next iteration (\<open>continue\<close>) with new variables, or fall through to the
  code below.
\<close>

datatype search_flow =
    Return astro_search_result_t
  | Continue search_state
  | FallThrough

definition iter_limit :: nat where
  "iter_limit = 20"

text \<open>
  The innermost block of the quadratic step: try the bracket \<open>tq \<plusminus> dt_guess\<close>, and adopt
  it when both ends lie strictly inside the current bracket and the sign change is
  confirmed.
\<close>

definition search_tighten ::
  "(real \<Rightarrow> real) \<Rightarrow> astro_search_func_t \<Rightarrow> astro_time_t \<Rightarrow> real \<Rightarrow> real
     \<Rightarrow> search_state \<Rightarrow> search_flow" where
  "search_tighten TT func tq fq dt_guess s =
    (let tleft = Astronomy_AddDays TT tq (- dt_guess);
         tright = Astronomy_AddDays TT tq dt_guess
     in if (ut tleft - ut (t1 s)) * (ut tleft - ut (t2 s)) < 0 then
          (if (ut tright - ut (t1 s)) * (ut tright - ut (t2 s)) < 0 then
             (case func tleft of
                Inl e \<Rightarrow> Return (Inl e)
              | Inr fleft \<Rightarrow>
                 (case func tright of
                    Inl e \<Rightarrow> Return (Inl e)
                  | Inr fright \<Rightarrow>
                     if fleft < 0 \<and> fright \<ge> 0 then
                       Continue (s\<lparr>f1 := fleft, f2 := fright, t1 := tleft, t2 := tright,
                                   fmid := fq, calc_fmid := False\<rparr>)
                     else FallThrough))
           else FallThrough)
        else FallThrough)"

text \<open>
  The quadratic-interpolation block. \<open>s\<close> holds the variables after \<open>++iter\<close> and after
  \<open>fmid\<close> is known; \<open>dt\<close> and \<open>tmid\<close> are the half-width and midpoint of this iteration.
\<close>

definition search_quad ::
  "(real \<Rightarrow> real) \<Rightarrow> astro_search_func_t \<Rightarrow> real \<Rightarrow> real \<Rightarrow> astro_time_t
     \<Rightarrow> search_state \<Rightarrow> search_flow" where
  "search_quad TT func dt_days dt tmid s =
    (case QuadInterp (ut tmid) (ut (t2 s) - ut tmid) (f1 s) (fmid s) (f2 s) of
       None \<Rightarrow> FallThrough
     | Some (q_x, q_ut, q_df_dt) \<Rightarrow>
        (let tq = UniversalTime TT q_ut in
         case func tq of
           Inl e \<Rightarrow> Return (Inl e)
         | Inr fq \<Rightarrow>
            if q_df_dt \<noteq> 0 then
              (if \<bar>fq / q_df_dt\<bar> < dt_days then Return (Inr tq)
               else
                 (let dt_guess = 1.2 * \<bar>fq / q_df_dt\<bar> in
                  if dt_guess < dt / 10 then search_tighten TT func tq fq dt_guess s
                  else FallThrough))
            else FallThrough))"

text \<open>The bisection block at the end of the loop body.\<close>

definition search_bisect :: "astro_time_t \<Rightarrow> search_state \<Rightarrow> search_flow" where
  "search_bisect tmid s =
    (if f1 s < 0 \<and> fmid s \<ge> 0 then Continue (s\<lparr>t2 := tmid, f2 := fmid s\<rparr>)
     else if fmid s < 0 \<and> f2 s \<ge> 0 then Continue (s\<lparr>t1 := tmid, f1 := fmid s\<rparr>)
     else Return (Inl ASTRO_SEARCH_FAILURE))"

text \<open>
  One iteration of the \<open>for(;;)\<close> loop: \<open>Inl\<close> is the state at the next loop head,
  \<open>Inr\<close> the value returned.
\<close>

definition search_step ::
  "(real \<Rightarrow> real) \<Rightarrow> astro_search_func_t \<Rightarrow> real \<Rightarrow> search_state
     \<Rightarrow> search_state + astro_search_result_t" where
  "search_step TT func dt_days s0 =
    (let s = s0\<lparr>iter := Suc (iter s0)\<rparr> in
     if iter s > iter_limit then Inr (Inl ASTRO_NO_CONVERGE)
     else
       (let dt = (tt (t2 s) - tt (t1 s)) / 2;
            tmid = Astronomy_AddDays TT (t1 s) dt
        in if \<bar>dt\<bar> < dt_days then Inr (Inr tmid)
           else
             (case (if calc_fmid s then func tmid else Inr (fmid s)) of
                Inl e \<Rightarrow> Inr (Inl e)
              | Inr fm \<Rightarrow>
                 (let s' = s\<lparr>fmid := fm, calc_fmid := True\<rparr> in
                  case search_quad TT func dt_days dt tmid s' of
                    Return r \<Rightarrow> Inr r
                  | Continue s'' \<Rightarrow> Inl s''
                  | FallThrough \<Rightarrow>
                     (case search_bisect tmid s' of
                        Return r \<Rightarrow> Inr r
                      | Continue s'' \<Rightarrow> Inl s''
                      | FallThrough \<Rightarrow> Inr (Inl ASTRO_SEARCH_FAILURE))))))"

text \<open>
  The loop. The result is paired with the value of \<open>iter\<close> when the function returns,
  which counts how many times the loop head was reached.
\<close>

function search_loop ::
  "(real \<Rightarrow> real) \<Rightarrow> astro_search_func_t \<Rightarrow> real \<Rightarrow> search_state
     \<Rightarrow> nat \<times> astro_search_result_t" where
  "search_loop TT func dt_days s =
    (case search_step TT func dt_days s of
       Inl s' \<Rightarrow> search_loop TT func dt_days s'
     | Inr r \<Rightarrow> (Suc (iter s), r))"
  by pat_completeness auto
termination
proof (relation "measure (\<lambda>(TT, func, dt_days, s). iter_limit - iter s)")
  show "wf (measure (\<lambda>(TT, func, dt_days, s). iter_limit - iter s))"
    by simp
next
  fix TT :: "real \<Rightarrow> real" and func :: astro_search_func_t
    and dt_days :: real and s s' :: search_state
  assume step: "search_step TT func dt_days s = Inl s'"
  have tighten: "iter b = iter a" if "search_tighten TT func tq fq dt_guess a = Continue b"
    for tq fq dt_guess a b
    using that unfolding search_tighten_def Let_def
    by (simp split: sum.splits if_splits) auto
  have quad: "iter b = iter a" if "search_quad TT func dt_days dt tmid a = Continue b"
    for dt tmid a b
    using that unfolding search_quad_def Let_def
    by (simp split: option.splits prod.splits sum.splits if_splits) (auto dest: tighten)
  have bisect: "iter b = iter a" if "search_bisect tmid a = Continue b" for tmid a b
    using that unfolding search_bisect_def by (auto split: if_splits)
  have "iter s' = Suc (iter s) \<and> iter s < iter_limit"
    using step unfolding search_step_def Let_def
    by (simp split: if_splits sum.splits search_flow.splits)
       (auto dest!: quad bisect)
  then show "((TT, func, dt_days, s'), (TT, func, dt_days, s))
      \<in> measure (\<lambda>(TT, func, dt_days, s). iter_limit - iter s)"
    by (simp add: diff_less_mono2)
qed

definition search_run ::
  "(real \<Rightarrow> real) \<Rightarrow> astro_search_func_t \<Rightarrow> astro_time_t \<Rightarrow> astro_time_t \<Rightarrow> real
     \<Rightarrow> nat \<times> astro_search_result_t" where
  "search_run TT func ta tb dt_tolerance_seconds =
    (let dt_days = \<bar>dt_tolerance_seconds / SECONDS_PER_DAY\<bar> in
     case func ta of
       Inl e \<Rightarrow> (0, Inl e)
     | Inr fa \<Rightarrow>
        (case func tb of
           Inl e \<Rightarrow> (0, Inl e)
         | Inr fb \<Rightarrow>
            search_loop TT func dt_days
              \<lparr>iter = 0, calc_fmid = True, t1 = ta, t2 = tb, f1 = fa, f2 = fb, fmid = 0\<rparr>))"

definition Astronomy_Search ::
  "(real \<Rightarrow> real) \<Rightarrow> astro_search_func_t \<Rightarrow> astro_time_t \<Rightarrow> astro_time_t \<Rightarrow> real
     \<Rightarrow> astro_search_result_t" where
  "Astronomy_Search TT func ta tb dt_tolerance_seconds =
     snd (search_run TT func ta tb dt_tolerance_seconds)"


section \<open>What the search needs from the time scale\<close>




section \<open>Moon phase and moon quarter\<close>

text \<open>
  \<open>LongitudeOffset\<close> is two \<open>while\<close> loops in sequence, each stepping by a full turn.
\<close>

function LongitudeOffset_up :: "real \<Rightarrow> real" where
  "LongitudeOffset_up offset =
     (if offset \<le> -180 then LongitudeOffset_up (offset + 360) else offset)"
  by pat_completeness auto
termination
proof (relation "measure (\<lambda>offset. nat (\<lfloor>(-180 - offset) / 360\<rfloor> + 1))")
  show "wf (measure (\<lambda>offset. nat (\<lfloor>(-180 - offset) / 360\<rfloor> + 1)))"
    by simp
next
  fix offset :: real
  assume le: "offset \<le> -180"
  have e: "(-180 - (offset + 360)) / 360 = (-180 - offset) / 360 - 1"
    by (simp add: field_simps)
  have "\<lfloor>(-180 - (offset + 360)) / 360\<rfloor> = \<lfloor>(-180 - offset) / 360\<rfloor> - 1"
    by (simp only: e floor_diff_one)
  moreover from le have "0 \<le> \<lfloor>(-180 - offset) / 360\<rfloor>"
    by simp
  ultimately show "(offset + 360, offset)
      \<in> measure (\<lambda>offset. nat (\<lfloor>(-180 - offset) / 360\<rfloor> + 1))"
    by simp
qed

function LongitudeOffset_down :: "real \<Rightarrow> real" where
  "LongitudeOffset_down offset =
     (if offset > 180 then LongitudeOffset_down (offset - 360) else offset)"
  by pat_completeness auto
termination
proof (relation "measure (\<lambda>offset. nat (\<lfloor>(offset + 180) / 360\<rfloor> + 1))")
  show "wf (measure (\<lambda>offset. nat (\<lfloor>(offset + 180) / 360\<rfloor> + 1)))"
    by simp
next
  fix offset :: real
  assume gt: "offset > 180"
  have e: "(offset - 360 + 180) / 360 = (offset + 180) / 360 - 1"
    by (simp add: field_simps)
  have "\<lfloor>(offset - 360 + 180) / 360\<rfloor> = \<lfloor>(offset + 180) / 360\<rfloor> - 1"
    by (simp only: e floor_diff_one)
  moreover from gt have "1 \<le> \<lfloor>(offset + 180) / 360\<rfloor>"
    by (simp add: le_floor_iff)
  ultimately show "(offset - 360, offset)
      \<in> measure (\<lambda>offset. nat (\<lfloor>(offset + 180) / 360\<rfloor> + 1))"
    by simp
qed

definition LongitudeOffset :: "real \<Rightarrow> real" where
  "LongitudeOffset diff = LongitudeOffset_down (LongitudeOffset_up diff)"

text \<open>
  \<open>Astronomy_MoonPhase\<close> (the ephemeris of Sun and Moon) is the parameter \<open>MP\<close>.
\<close>

definition moon_offset ::
  "astro_search_func_t \<Rightarrow> real \<Rightarrow> astro_time_t \<Rightarrow> astro_func_result_t" where
  "moon_offset MP targetLon time =
    (case MP time of
       Inl e \<Rightarrow> Inl e
     | Inr angle \<Rightarrow> Inr (LongitudeOffset (angle - targetLon)))"

definition Astronomy_SearchMoonPhase ::
  "(real \<Rightarrow> real) \<Rightarrow> astro_search_func_t \<Rightarrow> real \<Rightarrow> astro_time_t \<Rightarrow> real
     \<Rightarrow> astro_search_result_t" where
  "Astronomy_SearchMoonPhase TT MP targetLon dateStart limitDays =
    (let uncertainty = 0.9 in
     case moon_offset MP targetLon dateStart of
       Inl e \<Rightarrow> Inl e
     | Inr value \<Rightarrow>
        (let ya = (if value > 0 then value - 360 else value);
             est_dt = - (MEAN_SYNODIC_MONTH * ya) / 360;
             dt1 = est_dt - uncertainty
         in if dt1 > limitDays then Inl ASTRO_NO_MOON_QUARTER
            else
              (let dt2 = (if limitDays < est_dt + uncertainty then limitDays
                          else est_dt + uncertainty);
                   ta = Astronomy_AddDays TT dateStart dt1;
                   tb = Astronomy_AddDays TT dateStart dt2
               in Astronomy_Search TT (moon_offset MP targetLon) ta tb 1)))"

text \<open>
  The value \<open>est_dt\<close> of \<open>Astronomy_SearchMoonPhase\<close>, as a function of the offset
  that \<open>moon_offset\<close> returns at the start date.
\<close>

definition est_dt :: "real \<Rightarrow> real" where
  "est_dt value = - (MEAN_SYNODIC_MONTH * (if value > 0 then value - 360 else value)) / 360"

record astro_moon_quarter_t =
  quarter :: int
  mq_time :: astro_time_t

text \<open>
  The C remainder \<open>%\<close> truncates towards zero: it is \<open>smod\<close> on \<open>int\<close>. The type
  \<open>int\<close> of the quarter index is unbounded here.
\<close>

definition Astronomy_SearchMoonQuarter ::
  "(real \<Rightarrow> real) \<Rightarrow> astro_search_func_t \<Rightarrow> astro_time_t
     \<Rightarrow> astro_error + astro_moon_quarter_t" where
  "Astronomy_SearchMoonQuarter TT MP dateStart =
    (case MP dateStart of
       Inl e \<Rightarrow> Inl e
     | Inr angle \<Rightarrow>
        (let q = (1 + \<lfloor>angle / 90\<rfloor>) smod 4 in
         case Astronomy_SearchMoonPhase TT MP (90 * real_of_int q) dateStart 10 of
           Inl e \<Rightarrow> Inl e
         | Inr t \<Rightarrow> Inr \<lparr>quarter = q, mq_time = t\<rparr>))"

definition Astronomy_NextMoonQuarter ::
  "(real \<Rightarrow> real) \<Rightarrow> astro_search_func_t \<Rightarrow> astro_moon_quarter_t
     \<Rightarrow> astro_error + astro_moon_quarter_t" where
  "Astronomy_NextMoonQuarter TT MP mq =
    (let time = Astronomy_AddDays TT (mq_time mq) 6 in
     case Astronomy_SearchMoonQuarter TT MP time of
       Inl e \<Rightarrow> Inl e
     | Inr next_mq \<Rightarrow>
        if quarter next_mq \<noteq> (1 + quarter mq) smod 4 then Inl ASTRO_WRONG_MOON_QUARTER
        else Inr next_mq)"

section \<open>Lunar apsis\<close>

datatype astro_apsis_kind_t = APSIS_PERICENTER | APSIS_APOCENTER | APSIS_INVALID

record astro_apsis_t =
  apsis_time :: astro_time_t
  kind :: astro_apsis_kind_t
  dist_au :: real
  dist_km :: real

definition KM_PER_AU :: real where
  "KM_PER_AU = 149597870.69098932"

text \<open>
  \<open>MoonDistance\<close> (the lunar series \<open>CalcMoon\<close>) is the parameter \<open>MD\<close>. The context
  pointer of \<open>distance_slope\<close> is the integer \<open>direction\<close>.
\<close>

definition distance_slope ::
  "(real \<Rightarrow> real) \<Rightarrow> (astro_time_t \<Rightarrow> real) \<Rightarrow> int \<Rightarrow> astro_time_t \<Rightarrow> astro_func_result_t" where
  "distance_slope TT MD direction time =
    (let dt = 0.001;
         ta = Astronomy_AddDays TT time (- dt / 2);
         tb = Astronomy_AddDays TT time (dt / 2);
         dist1 = MD ta;
         dist2 = MD tb
     in Inr (real_of_int direction * (dist2 - dist1) / dt))"

definition increment :: real where
  "increment = 5"

definition apsis_result ::
  "(astro_time_t \<Rightarrow> real) \<Rightarrow> astro_apsis_kind_t \<Rightarrow> astro_search_result_t
     \<Rightarrow> astro_error + astro_apsis_t" where
  "apsis_result MD k search =
    (case search of
       Inl e \<Rightarrow> Inl e
     | Inr t \<Rightarrow> Inr \<lparr>apsis_time = t, kind = k, dist_au = MD t, dist_km = MD t * KM_PER_AU\<rparr>)"

text \<open>The body of the scan loop of \<open>Astronomy_SearchLunarApsis\<close>, from loop variable \<open>iter\<close> on.\<close>

function apsis_scan ::
  "(real \<Rightarrow> real) \<Rightarrow> (astro_time_t \<Rightarrow> real) \<Rightarrow> nat \<Rightarrow> astro_time_t \<Rightarrow> real
     \<Rightarrow> astro_error + astro_apsis_t" where
  "apsis_scan TT MD i ta m1 =
    (if real i * increment < 2 * MEAN_SYNODIC_MONTH then
       (let tb = Astronomy_AddDays TT ta increment in
        case distance_slope TT MD 1 tb of
          Inl e \<Rightarrow> Inl e
        | Inr m2 \<Rightarrow>
           if m1 * m2 \<le> 0 then
             (if m1 < 0 \<or> m2 > 0 then
                apsis_result MD APSIS_PERICENTER
                  (Astronomy_Search TT (distance_slope TT MD 1) ta tb 1)
              else if m1 > 0 \<or> m2 < 0 then
                apsis_result MD APSIS_APOCENTER
                  (Astronomy_Search TT (distance_slope TT MD (-1)) ta tb 1)
              else Inl ASTRO_INTERNAL_ERROR)
           else apsis_scan TT MD (Suc i) tb m2)
     else Inl ASTRO_INTERNAL_ERROR)"
  by pat_completeness auto
termination
proof (relation "measure (\<lambda>(TT, MD, i, ta, m1). 12 - i)")
  show "wf (measure (\<lambda>(TT, MD, i, ta, m1). 12 - i))"
    by simp
next
  fix TT :: "real \<Rightarrow> real" and MD :: "astro_time_t \<Rightarrow> real" and i :: nat
    and ta tb :: astro_time_t and m1 m2 :: real
  assume "real i * increment < 2 * MEAN_SYNODIC_MONTH"
  then have "real i < 12"
    by (simp add: increment_def MEAN_SYNODIC_MONTH_def)
  then have "i < 12" by simp
  then show "((TT, MD, Suc i, tb, m2), (TT, MD, i, ta, m1))
      \<in> measure (\<lambda>(TT, MD, i, ta, m1). 12 - i)"
    by simp
qed

definition Astronomy_SearchLunarApsis ::
  "(real \<Rightarrow> real) \<Rightarrow> (astro_time_t \<Rightarrow> real) \<Rightarrow> astro_time_t \<Rightarrow> astro_error + astro_apsis_t" where
  "Astronomy_SearchLunarApsis TT MD startTime =
    (case distance_slope TT MD 1 startTime of
       Inl e \<Rightarrow> Inl e
     | Inr m1 \<Rightarrow> apsis_scan TT MD 0 startTime m1)"



text \<open>
  The argument of \<open>Astronomy_NextLunarApsis\<close> is a result structure with its own status
  field, so it is a value of the sum type.
\<close>

definition Astronomy_NextLunarApsis ::
  "(real \<Rightarrow> real) \<Rightarrow> (astro_time_t \<Rightarrow> real) \<Rightarrow> astro_error + astro_apsis_t
     \<Rightarrow> astro_error + astro_apsis_t" where
  "Astronomy_NextLunarApsis TT MD apsis =
    (let skip = 11 in
     case apsis of
       Inl e \<Rightarrow> Inl ASTRO_INVALID_PARAMETER
     | Inr a \<Rightarrow>
        (let time = Astronomy_AddDays TT (apsis_time a) skip in
         case Astronomy_SearchLunarApsis TT MD time of
           Inl e \<Rightarrow> Inl e
         | Inr next \<Rightarrow>
            (case kind a of
               APSIS_APOCENTER \<Rightarrow>
                 if kind next \<noteq> APSIS_PERICENTER then Inl ASTRO_INTERNAL_ERROR else Inr next
             | APSIS_PERICENTER \<Rightarrow>
                 if kind next \<noteq> APSIS_APOCENTER then Inl ASTRO_INTERNAL_ERROR else Inr next
             | APSIS_INVALID \<Rightarrow> Inl ASTRO_INVALID_PARAMETER)))"

section \<open>Hour angle and rise/set\<close>

datatype astro_body_t =
    BODY_MERCURY | BODY_VENUS | BODY_EARTH | BODY_MARS | BODY_JUPITER | BODY_SATURN
  | BODY_URANUS | BODY_NEPTUNE | BODY_PLUTO | BODY_SUN | BODY_MOON | BODY_INVALID

datatype astro_refraction_t = REFRACTION_NONE | REFRACTION_NORMAL | REFRACTION_JPLHOR


record astro_equatorial_t =
  ra :: real
  dec :: real
  dist :: real




















section \<open>Functions and collaborators of the closed examples\<close>

text \<open>A function that is 5 everywhere.\<close>

definition flat_func :: astro_search_func_t where
  "flat_func t = Inr 5"

text \<open>A function that jumps from -2 to 0 just after \<open>ut = 10136\<close>.\<close>

definition low_func :: astro_search_func_t where
  "low_func t = Inr (if ut t \<le> 10136 then -2 else 0)"

text \<open>
  A lunar distance that is a parabola in time with its vertex at \<open>ut = c\<close> (on the
  time scale \<open>TT_late\<close>): a single apsis.
\<close>

definition parabolic_moon :: "real \<Rightarrow> real \<Rightarrow> astro_time_t \<Rightarrow> real" where
  "parabolic_moon A c t = A * (tt t - 73.66 / 86400 - c)\<^sup>2"




text \<open>A moon phase that grows by 12 degrees a day from 0 at \<open>ut = 10200\<close>.\<close>

definition ramp_phase :: astro_search_func_t where
  "ramp_phase t = Inr (12 * (ut t - 10200))"





text \<open>
  The recursive equations of the loops are applied by hand in the proofs below, one
  iteration at a time.
\<close>

declare search_loop.simps [simp del]
declare apsis_scan.simps [simp del]
declare LongitudeOffset_up.simps [simp del]
declare LongitudeOffset_down.simps [simp del]

lemma search_loop_next:
  "search_step TT func dt_days s = Inl s' \<Longrightarrow>
     search_loop TT func dt_days s = search_loop TT func dt_days s'"
  by (subst search_loop.simps) simp

lemma search_loop_done:
  "search_step TT func dt_days s = Inr r \<Longrightarrow>
     search_loop TT func dt_days s = (Suc (iter s), r)"
  by (subst search_loop.simps) simp

lemma QuadInterp_line:
  fixes a c m h :: real
  assumes a: "a \<noteq> 0" and h: "0 < h" and c: "\<bar>m - c\<bar> \<le> h"
  shows "QuadInterp m h (a * (m - h - c)) (a * (m - c)) (a * (m + h - c)) =
           Some ((c - m) / h, c, a)"
proof -
  have Q: "(a * (m + h - c) + a * (m - h - c)) / 2 - a * (m - c) = 0"
    by (simp add: field_simps)
  have R: "(a * (m + h - c) - a * (m - h - c)) / 2 = a * h"
    by (simp add: field_simps)
  have R0: "a * h \<noteq> 0" using a h by simp
  have x: "- (a * (m - c)) / (a * h) = (c - m) / h"
    using a h by (simp add: field_simps)
  have lo: "\<not> (c - m) / h < -1" and hi: "\<not> (c - m) / h > 1"
    using h c by (auto simp: field_simps abs_le_iff)
  have t: "m + (c - m) / h * h = c" using h by simp
  have d: "(2 * 0 * ((c - m) / h) + a * h) / h = a" using h by simp
  show ?thesis
    unfolding QuadInterp_def Let_def Q R x
    using R0 lo hi t d by simp
qed

text \<open>
  A linear function on a constant-offset time scale: from a loop state whose bracket
  holds the root, the root is found in one pass.
\<close>

lemma search_loop_line:
  fixes k a c dd :: real and s :: search_state
  assumes wf: "tt (t1 s) = ut (t1 s) + k" "tt (t2 s) = ut (t2 s) + k"
    and f1: "f1 s = a * (ut (t1 s) - c)"
    and f2: "f2 s = a * (ut (t2 s) - c)"
    and calc: "calc_fmid s"
    and fm: "func (UniversalTime (\<lambda>u. u + k) ((ut (t1 s) + ut (t2 s)) / 2)) =
               Inr (a * ((ut (t1 s) + ut (t2 s)) / 2 - c))"
    and fc: "func (UniversalTime (\<lambda>u. u + k) c) = Inr 0"
    and a: "a \<noteq> 0"
    and c: "ut (t1 s) \<le> c" "c \<le> ut (t2 s)" "ut (t1 s) < ut (t2 s)"
    and dd: "0 < dd" "dd \<le> (ut (t2 s) - ut (t1 s)) / 2"
    and it: "iter s < iter_limit"
  shows "search_loop (\<lambda>u. u + k) func dd s = (Suc (iter s), Inr (UniversalTime (\<lambda>u. u + k) c))"
proof -
  define TT where "TT = (\<lambda>u::real. u + k)"
  define m where "m = (ut (t1 s) + ut (t2 s)) / 2"
  define h where "h = (ut (t2 s) - ut (t1 s)) / 2"
  have h: "0 < h" using c by (simp add: h_def)
  have ddh: "dd \<le> h" using dd by (simp add: h_def)
  have dt: "(tt (t2 s) - tt (t1 s)) / 2 = h" using wf by (simp add: h_def)
  have mid: "Astronomy_AddDays TT (t1 s) h = UniversalTime TT m"
    by (simp add: Astronomy_AddDays_def UniversalTime_def Let_def m_def h_def field_simps)
  have ends: "ut (t1 s) = m - h" "ut (t2 s) = m + h"
    by (simp_all add: m_def h_def field_simps)
  have cm: "\<bar>m - c\<bar> \<le> h" using c by (simp add: m_def h_def abs_le_iff field_simps)
  have qi: "QuadInterp m (ut (t2 s) - m) (f1 s) (a * (m - c)) (f2 s) = Some ((c - m) / h, c, a)"
    using QuadInterp_line[OF a h cm] by (simp add: ends f1 f2)
  have fm': "func (UniversalTime TT m) = Inr (a * (m - c))"
    using fm by (simp add: TT_def m_def)
  have fc': "func (UniversalTime TT c) = Inr 0"
    using fc by (simp add: TT_def)
  have quad: "search_quad TT func dd h (UniversalTime TT m)
                (s\<lparr>iter := Suc (iter s), fmid := a * (m - c), calc_fmid := True\<rparr>)
              = Return (Inr (UniversalTime TT c))"
  proof -
    have "ut (UniversalTime TT m) = m" by (simp add: UniversalTime_def)
    with qi fc' a dd show ?thesis
      by (simp add: search_quad_def)
  qed
  have step: "search_step TT func dd s = Inr (Inr (UniversalTime TT c))"
  proof -
    have "\<not> \<bar>h\<bar> < dd" using ddh h by simp
    with fm' quad calc it show ?thesis
      by (simp add: search_step_def Let_def dt mid)
  qed
  from search_loop_done[OF step] show ?thesis by (simp add: TT_def)
qed

lemma search_run_line:
  fixes k a c tol :: real and ta tb :: astro_time_t
  assumes wf: "tt ta = ut ta + k" "tt tb = ut tb + k"
    and fa: "func ta = Inr (a * (ut ta - c))"
    and fb: "func tb = Inr (a * (ut tb - c))"
    and fm: "func (UniversalTime (\<lambda>u. u + k) ((ut ta + ut tb) / 2)) =
               Inr (a * ((ut ta + ut tb) / 2 - c))"
    and fc: "func (UniversalTime (\<lambda>u. u + k) c) = Inr 0"
    and a: "a \<noteq> 0"
    and c: "ut ta \<le> c" "c \<le> ut tb" "ut ta < ut tb"
    and tol: "tol \<noteq> 0" "\<bar>tol / SECONDS_PER_DAY\<bar> \<le> (ut tb - ut ta) / 2"
  shows "search_run (\<lambda>u. u + k) func ta tb tol = (1, Inr (UniversalTime (\<lambda>u. u + k) c))"
proof -
  let ?s = "\<lparr>iter = 0, calc_fmid = True, t1 = ta, t2 = tb,
             f1 = a * (ut ta - c), f2 = a * (ut tb - c), fmid = 0\<rparr>"
  have dd: "0 < \<bar>tol / SECONDS_PER_DAY\<bar>"
    using tol by (simp add: SECONDS_PER_DAY_def)
  have "search_loop (\<lambda>u. u + k) func \<bar>tol / SECONDS_PER_DAY\<bar> ?s =
          (Suc (iter ?s), Inr (UniversalTime (\<lambda>u. u + k) c))"
    by (rule search_loop_line[where a = a])
       (use wf fm fc a c tol dd in \<open>simp_all add: iter_limit_def\<close>)
  then show ?thesis
    unfolding search_run_def Let_def using fa fb by simp
qed

lemma search_step_cap:
  "iter_limit \<le> iter s \<Longrightarrow> search_step TT func dt_days s = Inr (Inl ASTRO_NO_CONVERGE)"
  by (simp add: search_step_def Let_def)

lemma search_tighten_keeps_iter:
  "search_tighten TT func tq fq dt_guess s = Continue s' \<Longrightarrow> iter s' = iter s"
  unfolding search_tighten_def Let_def
  by (simp split: sum.splits if_splits) auto

lemma search_quad_keeps_iter:
  "search_quad TT func dt_days dt tmid s = Continue s' \<Longrightarrow> iter s' = iter s"
  unfolding search_quad_def Let_def
  by (simp split: option.splits prod.splits sum.splits if_splits)
     (auto dest: search_tighten_keeps_iter)

lemma search_bisect_keeps_iter:
  "search_bisect tmid s = Continue s' \<Longrightarrow> iter s' = iter s"
  unfolding search_bisect_def
  by (auto split: if_splits)

lemma search_step_counts:
  "search_step TT func dt_days s = Inl s' \<Longrightarrow> iter s' = Suc (iter s) \<and> iter s < iter_limit"
  unfolding search_step_def Let_def
  by (simp split: if_splits sum.splits search_flow.splits)
     (auto dest!: search_quad_keeps_iter search_bisect_keeps_iter)

lemma search_loop_cap:
  "iter s \<le> iter_limit \<Longrightarrow>
     fst (search_loop TT func dt_days s) \<le> Suc iter_limit \<and>
     (fst (search_loop TT func dt_days s) = Suc iter_limit \<longrightarrow>
        snd (search_loop TT func dt_days s) = Inl ASTRO_NO_CONVERGE)"
proof (induction TT func dt_days s rule: search_loop.induct)
  case (1 TT func dt_days s)
  show ?case
  proof (cases "search_step TT func dt_days s")
    case (Inl s')
    from search_step_counts[OF Inl] have "iter s' \<le> iter_limit" by simp
    from "1.IH"[OF Inl this] show ?thesis by (simp add: search_loop_next[OF Inl])
  next
    case (Inr r)
    show ?thesis
    proof (cases "iter s = iter_limit")
      case True
      with search_step_cap[of s TT func dt_days] Inr have "r = Inl ASTRO_NO_CONVERGE" by simp
      with "1.prems" show ?thesis by (simp add: search_loop_done[OF Inr])
    next
      case False
      with "1.prems" show ?thesis by (simp add: search_loop_done[OF Inr])
    qed
  qed
qed

text \<open>
  Claim C4. \<open>Astronomy_Search\<close> reaches the head of its loop at most 21 times on every
  input, so the loop body runs at most 20 times; when the head is reached the 21st time
  the call returns \<open>ASTRO_NO_CONVERGE\<close> instead of iterating further.
\<close>

theorem search_iteration_cap:
  "fst (search_run TT func ta tb tol) \<le> Suc iter_limit \<and>
   (fst (search_run TT func ta tb tol) = Suc iter_limit \<longrightarrow>
      Astronomy_Search TT func ta tb tol = Inl ASTRO_NO_CONVERGE)"
proof (cases "func ta")
  case (Inl e)
  then show ?thesis by (simp add: search_run_def Astronomy_Search_def)
next
  case fa: (Inr a)
  show ?thesis
  proof (cases "func tb")
    case (Inl e)
    with fa show ?thesis by (simp add: search_run_def Astronomy_Search_def)
  next
    case fb: (Inr b)
    let ?s = "\<lparr>iter = 0, calc_fmid = True, t1 = ta, t2 = tb, f1 = a, f2 = b, fmid = 0\<rparr>"
    have "iter ?s \<le> iter_limit" by simp
    from search_loop_cap[OF this, of TT func "\<bar>tol / SECONDS_PER_DAY\<bar>"] fa fb
    show ?thesis unfolding search_run_def Astronomy_Search_def Let_def by simp
  qed
qed

text \<open>A window whose half-width is below the tolerance: the midpoint is returned at once.\<close>

lemma search_run_narrow:
  assumes narrow: "\<bar>(tt tb - tt ta) / 2\<bar> < \<bar>tol / SECONDS_PER_DAY\<bar>"
    and fa: "func ta = Inr a" and fb: "func tb = Inr b"
  shows "search_run TT func ta tb tol = (1, Inr (Astronomy_AddDays TT ta ((tt tb - tt ta) / 2)))"
proof -
  let ?s = "\<lparr>iter = 0, calc_fmid = True, t1 = ta, t2 = tb, f1 = a, f2 = b, fmid = 0\<rparr>"
  have "search_step TT func \<bar>tol / SECONDS_PER_DAY\<bar> ?s =
          Inr (Inr (Astronomy_AddDays TT ta ((tt tb - tt ta) / 2)))"
    unfolding search_step_def Let_def using narrow by (simp add: iter_limit_def)
  from search_loop_done[OF this] fa fb show ?thesis
    unfolding search_run_def Let_def by simp
qed

text \<open>
  Claim C10. When the half-width of the window (half the difference of the \<open>tt\<close>
  coordinates) is already below the tolerance in days, \<open>Astronomy_Search\<close> evaluates
  the function at both ends, returns the first error status it meets there, and
  otherwise returns the midpoint with status success, whatever the two values are.
\<close>

theorem search_narrow_window:
  assumes "\<bar>(tt tb - tt ta) / 2\<bar> < \<bar>tol / SECONDS_PER_DAY\<bar>"
  shows "Astronomy_Search TT func ta tb tol =
          (case func ta of
             Inl e \<Rightarrow> Inl e
           | Inr fa \<Rightarrow>
              (case func tb of
                 Inl e \<Rightarrow> Inl e
               | Inr fb \<Rightarrow> Inr (Astronomy_AddDays TT ta ((tt tb - tt ta) / 2))))"
proof (cases "func ta")
  case (Inl e)
  then show ?thesis by (simp add: search_run_def Astronomy_Search_def)
next
  case fa: (Inr a)
  show ?thesis
  proof (cases "func tb")
    case (Inl e)
    with fa show ?thesis by (simp add: search_run_def Astronomy_Search_def)
  next
    case fb: (Inr b)
    from search_run_narrow[OF assms fa fb] fa fb show ?thesis
      by (simp add: Astronomy_Search_def)
  qed
qed

lemma QuadInterp_samples:
  "(q + r + s + (q - r + s)) / 2 - s = (q::real)" "(q + r + s - (q - r + s)) / 2 = r"
  by (simp_all add: field_simps)

lemma QuadInterp_parabola:
  "QuadInterp tm dt (q - r + s) s (q + r + s) =
    (if q = 0 then
       (if r = 0 then None
        else if - s / r < -1 \<or> - s / r > 1 then None
        else Some (- s / r, tm + (- s / r) * dt, (2 * q * (- s / r) + r) / dt))
     else
       (if r * r - 4 * q * s \<le> 0 then None
        else if -1 \<le> (- r + sqrt (r * r - 4 * q * s)) / (2 * q)
                 \<and> (- r + sqrt (r * r - 4 * q * s)) / (2 * q) \<le> 1 then
               (if -1 \<le> (- r - sqrt (r * r - 4 * q * s)) / (2 * q)
                    \<and> (- r - sqrt (r * r - 4 * q * s)) / (2 * q) \<le> 1 then None
                else Some ((- r + sqrt (r * r - 4 * q * s)) / (2 * q),
                           tm + (- r + sqrt (r * r - 4 * q * s)) / (2 * q) * dt,
                           (2 * q * ((- r + sqrt (r * r - 4 * q * s)) / (2 * q)) + r) / dt))
             else if -1 \<le> (- r - sqrt (r * r - 4 * q * s)) / (2 * q)
                      \<and> (- r - sqrt (r * r - 4 * q * s)) / (2 * q) \<le> 1 then
               Some ((- r - sqrt (r * r - 4 * q * s)) / (2 * q),
                     tm + (- r - sqrt (r * r - 4 * q * s)) / (2 * q) * dt,
                     (2 * q * ((- r - sqrt (r * r - 4 * q * s)) / (2 * q)) + r) / dt)
             else None))"
  unfolding QuadInterp_def Let_def QuadInterp_samples by (rule refl)




lemma quadratic_no_root:
  fixes q r s y :: real
  assumes q: "q \<noteq> 0" and u: "r * r - 4 * q * s < 0"
  shows "q * y\<^sup>2 + r * y + s \<noteq> 0"
proof
  assume e: "q * y\<^sup>2 + r * y + s = 0"
  have "(2 * q * y + r)\<^sup>2 = r * r - 4 * q * s + 4 * q * (q * y\<^sup>2 + r * y + s)"
    by (simp add: power2_eq_square algebra_simps)
  with e have "(2 * q * y + r)\<^sup>2 = r * r - 4 * q * s" by simp
  moreover have "0 \<le> (2 * q * y + r)\<^sup>2" by simp
  ultimately show False using u by linarith
qed










lemma apsis_result_kind:
  "apsis_result MD k search = Inr n \<Longrightarrow> kind n = k"
  by (auto simp: apsis_result_def split: sum.splits)

lemma apsis_scan_kind:
  "apsis_scan TT MD i ta m1 = Inr n \<Longrightarrow> kind n = APSIS_PERICENTER \<or> kind n = APSIS_APOCENTER"
proof (induction TT MD i ta m1 rule: apsis_scan.induct)
  case (1 TT MD i ta m1)
  show ?case
  proof (cases "real i * increment < 2 * MEAN_SYNODIC_MONTH")
    case False
    with "1.prems" show ?thesis by (simp add: apsis_scan.simps)
  next
    case True
    define tb where "tb = Astronomy_AddDays TT ta increment"
    obtain m2 where m2: "distance_slope TT MD 1 tb = Inr m2"
      by (simp add: distance_slope_def Let_def)
    show ?thesis
    proof (cases "m1 * m2 \<le> 0")
      case False
      with "1.prems" True m2 have "apsis_scan TT MD (Suc i) tb m2 = Inr n"
        by (subst (asm) apsis_scan.simps) (simp add: tb_def Let_def)
      with "1.IH"[OF True tb_def m2 False] show ?thesis by simp
    next
      case prod: True
      with "1.prems" True m2 show ?thesis
        by (subst (asm) apsis_scan.simps)
           (auto simp: tb_def[symmetric] Let_def dest: apsis_result_kind split: if_splits)
    qed
  qed
qed

lemma SearchLunarApsis_kind:
  "Astronomy_SearchLunarApsis TT MD t = Inr n \<Longrightarrow>
     kind n = APSIS_PERICENTER \<or> kind n = APSIS_APOCENTER"
  by (auto simp: Astronomy_SearchLunarApsis_def dest: apsis_scan_kind split: sum.splits)

text \<open>
  Claim C7. When \<open>Astronomy_NextLunarApsis\<close> succeeds on a successful apsis, the kinds
  of the input and of the result are pericenter and apocenter, one each; when the inner
  search (started 11 days after the input) finds the kind of a valid input again, the
  call returns \<open>ASTRO_INTERNAL_ERROR\<close>; so two successful calls in a row never return
  the same kind.
\<close>

theorem next_apsis_alternates:
  "(\<forall>n. Astronomy_NextLunarApsis TT MD (Inr a) = Inr n \<longrightarrow>
        (kind a = APSIS_PERICENTER \<and> kind n = APSIS_APOCENTER) \<or>
        (kind a = APSIS_APOCENTER \<and> kind n = APSIS_PERICENTER)) \<and>
   (\<forall>n. kind a \<noteq> APSIS_INVALID \<and>
        Astronomy_SearchLunarApsis TT MD (Astronomy_AddDays TT (apsis_time a) 11) = Inr n \<and>
        kind n = kind a \<longrightarrow>
        Astronomy_NextLunarApsis TT MD (Inr a) = Inl ASTRO_INTERNAL_ERROR) \<and>
   (\<forall>n m. Astronomy_NextLunarApsis TT MD (Inr a) = Inr n \<and>
          Astronomy_NextLunarApsis TT MD (Inr n) = Inr m \<longrightarrow> kind m \<noteq> kind n)"
proof -
  have step: "(kind b = APSIS_PERICENTER \<and> kind n = APSIS_APOCENTER) \<or>
              (kind b = APSIS_APOCENTER \<and> kind n = APSIS_PERICENTER)"
    if "Astronomy_NextLunarApsis TT MD (Inr b) = Inr n" for b n
    using that
    by (cases "kind b")
       (auto simp: Astronomy_NextLunarApsis_def Let_def split: sum.splits if_splits)
  have same: "Astronomy_NextLunarApsis TT MD (Inr a) = Inl ASTRO_INTERNAL_ERROR"
    if "kind a \<noteq> APSIS_INVALID"
      and "Astronomy_SearchLunarApsis TT MD (Astronomy_AddDays TT (apsis_time a) 11) = Inr n"
      and "kind n = kind a" for n
    using that
    by (cases "kind a") (auto simp: Astronomy_NextLunarApsis_def Let_def)
  have twice: "kind m \<noteq> kind n"
    if "Astronomy_NextLunarApsis TT MD (Inr a) = Inr n"
      and "Astronomy_NextLunarApsis TT MD (Inr n) = Inr m" for n m
    using step[OF that(2)] by auto
  from step same twice show ?thesis by blast
qed

lemma smod_4_nonneg: "0 \<le> k \<Longrightarrow> k smod 4 = k mod (4::int)"
  by (simp add: smod_mod_positive)

text \<open>
  Claim C8. For a moon quarter \<open>mq\<close> with index at least \<open>-1\<close>: when
  \<open>Astronomy_NextMoonQuarter\<close> succeeds, the quarter index it returns is
  \<open>(quarter mq + 1) mod 4\<close>; when the inner search, started 6 days after \<open>mq\<close>, finds
  another index, the call returns \<open>ASTRO_WRONG_MOON_QUARTER\<close>, a status different from
  \<open>ASTRO_NO_CONVERGE\<close> and \<open>ASTRO_SEARCH_FAILURE\<close>.
\<close>

theorem next_moon_quarter_index:
  "(\<forall>n. 0 \<le> 1 + quarter mq \<and> Astronomy_NextMoonQuarter TT MP mq = Inr n \<longrightarrow>
        quarter n = (quarter mq + 1) mod 4) \<and>
   (\<forall>n. 0 \<le> 1 + quarter mq \<and>
        Astronomy_SearchMoonQuarter TT MP (Astronomy_AddDays TT (mq_time mq) 6) = Inr n \<and>
        quarter n \<noteq> (quarter mq + 1) mod 4 \<longrightarrow>
        Astronomy_NextMoonQuarter TT MP mq = Inl ASTRO_WRONG_MOON_QUARTER) \<and>
   ASTRO_WRONG_MOON_QUARTER \<noteq> ASTRO_NO_CONVERGE \<and>
   ASTRO_WRONG_MOON_QUARTER \<noteq> ASTRO_SEARCH_FAILURE"
proof (intro conjI allI impI)
  fix n
  assume a: "0 \<le> 1 + quarter mq \<and> Astronomy_NextMoonQuarter TT MP mq = Inr n"
  then have "quarter n = (1 + quarter mq) smod 4"
    by (auto simp: Astronomy_NextMoonQuarter_def Let_def split: sum.splits if_splits)
  with a show "quarter n = (quarter mq + 1) mod 4"
    by (simp add: smod_4_nonneg add.commute)
next
  fix n
  assume a: "0 \<le> 1 + quarter mq \<and>
        Astronomy_SearchMoonQuarter TT MP (Astronomy_AddDays TT (mq_time mq) 6) = Inr n \<and>
        quarter n \<noteq> (quarter mq + 1) mod 4"
  then have "quarter n \<noteq> (1 + quarter mq) smod 4"
    by (simp add: smod_4_nonneg add.commute)
  with a show "Astronomy_NextMoonQuarter TT MP mq = Inl ASTRO_WRONG_MOON_QUARTER"
    by (simp add: Astronomy_NextMoonQuarter_def Let_def)
qed simp_all













lemma TT_late_fun: "TT_late = (\<lambda>u. u + 73.66 / 86400)"
  by (rule ext) (simp add: TT_late_def)



text \<open>
  A window one second wide with tolerance one second: the function is 5 at both ends
  and the midpoint is returned.
\<close>

theorem search_narrow_window_witness:
  "\<bar>(tt (UniversalTime TT_late (10136 + 1 / 86400)) - tt (UniversalTime TT_late 10136)) / 2\<bar>
     < \<bar>1 / SECONDS_PER_DAY\<bar> \<and>
   Astronomy_Search TT_late flat_func (UniversalTime TT_late 10136)
       (UniversalTime TT_late (10136 + 1 / 86400)) 1
     = Inr (UniversalTime TT_late (10136 + 1 / 172800))"
proof -
  have h: "\<bar>(tt (UniversalTime TT_late (10136 + 1 / 86400)) - tt (UniversalTime TT_late 10136)) / 2\<bar>
     < \<bar>1 / SECONDS_PER_DAY\<bar>"
    by (simp add: UniversalTime_def TT_late_def SECONDS_PER_DAY_def)
  from search_narrow_window[OF h, of TT_late flat_func] h show ?thesis
    by (simp add: flat_func_def Astronomy_AddDays_def UniversalTime_def TT_late_def Let_def)
qed

lemma low_func_quad:
  "QuadInterp tm dt (- 2) 0 0 = None"
proof -
  have "QuadInterp tm dt (-1 - 1 + 0) 0 (-1 + 1 + 0) = None"
    unfolding QuadInterp_parabola by simp
  then show ?thesis by simp
qed

lemma low_func_step:
  assumes w: "0 < w" and k: "k < 20"
  shows "search_step TT_late low_func 0
           \<lparr>iter = k, calc_fmid = True, t1 = UniversalTime TT_late 10136,
            t2 = UniversalTime TT_late (10136 + w), f1 = - 2, f2 = 0, fmid = m\<rparr>
         = Inl \<lparr>iter = Suc k, calc_fmid = True, t1 = UniversalTime TT_late 10136,
                t2 = UniversalTime TT_late (10136 + w / 2), f1 = - 2, f2 = 0, fmid = 0\<rparr>"
proof -
  have mid: "Astronomy_AddDays TT_late (UniversalTime TT_late 10136) (w / 2)
             = UniversalTime TT_late (10136 + w / 2)"
    by (simp add: Astronomy_AddDays_def UniversalTime_def TT_late_def Let_def)
  have dt: "(tt (UniversalTime TT_late (10136 + w)) - tt (UniversalTime TT_late 10136)) / 2 = w / 2"
    by (simp add: UniversalTime_def TT_late_def)
  have fm: "low_func (UniversalTime TT_late (10136 + w / 2)) = Inr 0"
    using w by (simp add: low_func_def UniversalTime_def)
  show ?thesis
    unfolding search_step_def Let_def
    using w k
    by (simp add: iter_limit_def mid dt fm search_quad_def low_func_quad search_bisect_def)
qed

lemma low_func_loop:
  "0 < w \<Longrightarrow> k \<le> 20 \<Longrightarrow>
   search_loop TT_late low_func 0
     \<lparr>iter = k, calc_fmid = True, t1 = UniversalTime TT_late 10136,
      t2 = UniversalTime TT_late (10136 + w), f1 = - 2, f2 = 0, fmid = m\<rparr>
   = (21, Inl ASTRO_NO_CONVERGE)"
proof (induction "20 - k" arbitrary: k w m)
  case 0
  then have k: "k = 20" by simp
  have "search_step TT_late low_func 0
     \<lparr>iter = k, calc_fmid = True, t1 = UniversalTime TT_late 10136,
      t2 = UniversalTime TT_late (10136 + w), f1 = - 2, f2 = 0, fmid = m\<rparr>
     = Inr (Inl ASTRO_NO_CONVERGE)"
    by (rule search_step_cap) (simp add: k iter_limit_def)
  from search_loop_done[OF this] k show ?case by simp
next
  case (Suc n)
  then have k: "k < 20" and n: "n = 20 - Suc k" by simp_all
  from Suc.prems have w2: "0 < w / 2" by simp
  from k have k': "Suc k \<le> 20" by simp
  from search_loop_next[OF low_func_step[OF Suc.prems(1) k, of m]]
    Suc.hyps(1)[OF n w2 k', of 0]
  show ?case by simp
qed

text \<open>
  With tolerance 0 and a function that jumps just after the left end of the window,
  every pass bisects, and the 21st arrival at the loop head gives \<open>ASTRO_NO_CONVERGE\<close>.
\<close>

theorem search_iteration_cap_witness:
  "fst (search_run TT_late low_func (UniversalTime TT_late 10136)
          (UniversalTime TT_late 10137) 0) = Suc iter_limit \<and>
   Astronomy_Search TT_late low_func (UniversalTime TT_late 10136)
          (UniversalTime TT_late 10137) 0 = Inl ASTRO_NO_CONVERGE"
proof -
  have run: "search_run TT_late low_func (UniversalTime TT_late 10136)
          (UniversalTime TT_late 10137) 0 = (21, Inl ASTRO_NO_CONVERGE)"
    unfolding search_run_def Let_def
    using low_func_loop[of 1 0 0]
    by (simp add: low_func_def UniversalTime_def)
  then have "fst (search_run TT_late low_func (UniversalTime TT_late 10136)
          (UniversalTime TT_late 10137) 0) = Suc iter_limit"
    by (simp add: iter_limit_def)
  with search_iteration_cap[of TT_late low_func "UniversalTime TT_late 10136"
      "UniversalTime TT_late 10137" 0]
  show ?thesis by simp
qed

lemma LongitudeOffset_id:
  "-180 < x \<Longrightarrow> x \<le> 180 \<Longrightarrow> LongitudeOffset x = x"
  by (simp add: LongitudeOffset_def LongitudeOffset_up.simps LongitudeOffset_down.simps)

lemma distance_slope_parabolic:
  "tt t = ut t + 73.66 / 86400 \<Longrightarrow>
   distance_slope TT_late (parabolic_moon A c) d t = Inr (real_of_int d * (2 * A * (ut t - c)))"
  by (simp add: distance_slope_def parabolic_moon_def Astronomy_AddDays_def TT_late_def Let_def
        power2_eq_square field_simps)

lemma distance_slope_parabolic_UT:
  "distance_slope TT_late (parabolic_moon A c) d (UniversalTime TT_late u) =
     Inr (real_of_int d * (2 * A * (u - c)))"
  using distance_slope_parabolic[of "UniversalTime TT_late u" A c d]
  by (simp add: UniversalTime_def TT_late_def)

text \<open>The search of the examples: a line through zero at \<open>c\<close>, on the time scale \<open>TT_late\<close>.\<close>

lemma search_line_late:
  assumes fa: "func (UniversalTime TT_late u1) = Inr (a * (u1 - c))"
    and fb: "func (UniversalTime TT_late u2) = Inr (a * (u2 - c))"
    and fm: "func (UniversalTime TT_late ((u1 + u2) / 2)) = Inr (a * ((u1 + u2) / 2 - c))"
    and fc: "func (UniversalTime TT_late c) = Inr 0"
    and a: "a \<noteq> 0" and c: "u1 \<le> c" "c \<le> u2" "u1 < u2"
    and tol: "tol \<noteq> 0" "\<bar>tol / SECONDS_PER_DAY\<bar> \<le> (u2 - u1) / 2"
  shows "Astronomy_Search TT_late func (UniversalTime TT_late u1) (UniversalTime TT_late u2) tol
           = Inr (UniversalTime TT_late c)"
proof -
  have "search_run (\<lambda>u. u + 73.66 / 86400) func (UniversalTime TT_late u1)
          (UniversalTime TT_late u2) tol
        = (1, Inr (UniversalTime (\<lambda>u. u + 73.66 / 86400) c))"
    by (rule search_run_line[where a = a])
       (use assms in \<open>simp_all add: UniversalTime_def TT_late_def\<close>)
  then show ?thesis
    by (simp add: Astronomy_Search_def TT_late_fun)
qed


lemma apsis_example:
  "Astronomy_SearchLunarApsis TT_late (parabolic_moon 1 10213) (UniversalTime TT_late 10211) =
     Inr \<lparr>apsis_time = UniversalTime TT_late 10213, kind = APSIS_PERICENTER,
          dist_au = 0, dist_km = 0\<rparr>"
proof -
  let ?f = "distance_slope TT_late (parabolic_moon 1 10213) 1"
  have tb: "Astronomy_AddDays TT_late (UniversalTime TT_late 10211) 5 =
              UniversalTime TT_late 10216"
    by (simp add: Astronomy_AddDays_def UniversalTime_def Let_def)
  have search: "Astronomy_Search TT_late ?f (UniversalTime TT_late 10211)
                  (UniversalTime TT_late 10216) 1 = Inr (UniversalTime TT_late 10213)"
    by (rule search_line_late[where a = 2])
       (simp_all add: distance_slope_parabolic_UT SECONDS_PER_DAY_def)
  have dist: "parabolic_moon 1 10213 (UniversalTime TT_late 10213) = 0"
    by (simp add: parabolic_moon_def UniversalTime_def TT_late_def)
  have "apsis_scan TT_late (parabolic_moon 1 10213) 0 (UniversalTime TT_late 10211) (- 4) =
     Inr \<lparr>apsis_time = UniversalTime TT_late 10213, kind = APSIS_PERICENTER,
          dist_au = 0, dist_km = 0\<rparr>"
    by (subst apsis_scan.simps)
       (simp add: Let_def tb distance_slope_parabolic_UT search apsis_result_def dist
          increment_def MEAN_SYNODIC_MONTH_def)
  then show ?thesis
    by (simp add: Astronomy_SearchLunarApsis_def distance_slope_parabolic_UT)
qed

text \<open>
  From an apocenter at \<open>ut = 10200\<close> the next apsis of the parabolic distance is the
  pericenter at \<open>ut = 10213\<close>; from a pericenter at the same time the search finds a
  pericenter again and the call fails.
\<close>

theorem next_apsis_alternates_witness:
  "Astronomy_NextLunarApsis TT_late (parabolic_moon 1 10213)
     (Inr \<lparr>apsis_time = UniversalTime TT_late 10200, kind = APSIS_APOCENTER,
           dist_au = 169, dist_km = 169 * KM_PER_AU\<rparr>)
     = Inr \<lparr>apsis_time = UniversalTime TT_late 10213, kind = APSIS_PERICENTER,
            dist_au = 0, dist_km = 0\<rparr> \<and>
   Astronomy_NextLunarApsis TT_late (parabolic_moon 1 10213)
     (Inr \<lparr>apsis_time = UniversalTime TT_late 10200, kind = APSIS_PERICENTER,
           dist_au = 169, dist_km = 169 * KM_PER_AU\<rparr>)
     = Inl ASTRO_INTERNAL_ERROR"
proof -
  let ?n = "\<lparr>apsis_time = UniversalTime TT_late 10213, kind = APSIS_PERICENTER,
            dist_au = 0, dist_km = 0\<rparr>"
  let ?a = "\<lparr>apsis_time = UniversalTime TT_late 10200, kind = APSIS_APOCENTER,
           dist_au = 169, dist_km = 169 * KM_PER_AU\<rparr>"
  let ?p = "\<lparr>apsis_time = UniversalTime TT_late 10200, kind = APSIS_PERICENTER,
           dist_au = 169, dist_km = 169 * KM_PER_AU\<rparr>"
  have t: "Astronomy_AddDays TT_late (UniversalTime TT_late 10200) 11 =
             UniversalTime TT_late 10211"
    by (simp add: Astronomy_AddDays_def UniversalTime_def Let_def)
  have first: "Astronomy_NextLunarApsis TT_late (parabolic_moon 1 10213) (Inr ?a) = Inr ?n"
    by (simp add: Astronomy_NextLunarApsis_def t apsis_example)
  have inner: "kind ?p \<noteq> APSIS_INVALID \<and>
     Astronomy_SearchLunarApsis TT_late (parabolic_moon 1 10213)
       (Astronomy_AddDays TT_late (apsis_time ?p) 11) = Inr ?n \<and> kind ?n = kind ?p"
    by (simp add: t apsis_example)
  from next_apsis_alternates[of TT_late "parabolic_moon 1 10213" ?a,
      THEN conjunct1, rule_format, OF first]
  have "kind ?n = APSIS_PERICENTER" by simp
  moreover
  from next_apsis_alternates[of TT_late "parabolic_moon 1 10213" ?p,
      THEN conjunct2, THEN conjunct1, rule_format, OF inner]
  have "Astronomy_NextLunarApsis TT_late (parabolic_moon 1 10213) (Inr ?p)
          = Inl ASTRO_INTERNAL_ERROR" .
  ultimately show ?thesis using first by simp
qed

lemma moon_offset_ramp:
  "-180 < 12 * (u - 10207.5) \<Longrightarrow> 12 * (u - 10207.5) \<le> 180 \<Longrightarrow>
   moon_offset ramp_phase 90 (UniversalTime TT_late u) = Inr (12 * (u - 10207.5))"
proof -
  assume r: "-180 < 12 * (u - 10207.5)" "12 * (u - 10207.5) \<le> 180"
  have e: "12 * (u - 10200) - 90 = 12 * (u - 10207.5)" by simp
  show ?thesis
    using LongitudeOffset_id[OF r]
    by (simp only: moon_offset_def ramp_phase_def UniversalTime_def astro_time_t.simps
          sum.case e)
qed

lemma moon_phase_example:
  "Astronomy_SearchMoonPhase TT_late ramp_phase 90 (UniversalTime TT_late 10206) 10 =
     Inr (UniversalTime TT_late 10207.5)"
proof -
  let ?f = "moon_offset ramp_phase 90"
  have start: "?f (UniversalTime TT_late 10206) = Inr (- 18)"
    using moon_offset_ramp[of 10206] by simp
  have ta: "Astronomy_AddDays TT_late (UniversalTime TT_late 10206) (est_dt (- 18) - 0.9)
              = UniversalTime TT_late 10206.5765294"
    by (simp add: Astronomy_AddDays_def UniversalTime_def Let_def est_dt_def
          MEAN_SYNODIC_MONTH_def)
  have tb: "Astronomy_AddDays TT_late (UniversalTime TT_late 10206) (est_dt (- 18) + 0.9)
              = UniversalTime TT_late 10208.3765294"
    by (simp add: Astronomy_AddDays_def UniversalTime_def Let_def est_dt_def
          MEAN_SYNODIC_MONTH_def)
  have est: "est_dt (- 18) - 0.9 \<le> 10" "\<not> 10 < est_dt (- 18) + 0.9"
    by (simp_all add: est_dt_def MEAN_SYNODIC_MONTH_def)
  have search: "Astronomy_Search TT_late ?f (UniversalTime TT_late 10206.5765294)
                  (UniversalTime TT_late 10208.3765294) 1 = Inr (UniversalTime TT_late 10207.5)"
  proof (rule search_line_late[where a = 12])
    show "?f (UniversalTime TT_late 10206.5765294) = Inr (12 * (10206.5765294 - 10207.5))"
      by (rule moon_offset_ramp) simp_all
    show "?f (UniversalTime TT_late 10208.3765294) = Inr (12 * (10208.3765294 - 10207.5))"
      by (rule moon_offset_ramp) simp_all
    show "?f (UniversalTime TT_late ((10206.5765294 + 10208.3765294) / 2)) =
            Inr (12 * ((10206.5765294 + 10208.3765294) / 2 - 10207.5))"
      by (rule moon_offset_ramp) simp_all
    show "?f (UniversalTime TT_late 10207.5) = Inr 0"
      using moon_offset_ramp[of "10207.5"] by simp
  qed (simp_all add: SECONDS_PER_DAY_def)
  show ?thesis
    unfolding Astronomy_SearchMoonPhase_def Let_def start est_dt_def[symmetric]
    using est search by (simp add: ta tb)
qed

lemma moon_quarter_example:
  "Astronomy_SearchMoonQuarter TT_late ramp_phase (UniversalTime TT_late 10206) =
     Inr \<lparr>quarter = 1, mq_time = UniversalTime TT_late 10207.5\<rparr>"
proof -
  have angle: "ramp_phase (UniversalTime TT_late 10206) = Inr 72"
    by (simp add: ramp_phase_def UniversalTime_def)
  show ?thesis
    using moon_phase_example
    by (simp add: Astronomy_SearchMoonQuarter_def Let_def angle smod_4_nonneg)
qed

text \<open>
  After the new moon (index 0) at \<open>ut = 10200\<close> of the ramp phase the first quarter
  (index 1) is found at \<open>ut = 10207.5\<close>; after a full moon (index 2) at the same time
  the same first quarter is found and refused.
\<close>

theorem next_moon_quarter_index_witness:
  "Astronomy_NextMoonQuarter TT_late ramp_phase
     \<lparr>quarter = 0, mq_time = UniversalTime TT_late 10200\<rparr>
     = Inr \<lparr>quarter = 1, mq_time = UniversalTime TT_late 10207.5\<rparr> \<and>
   (1::int) = (0 + 1) mod 4 \<and>
   Astronomy_NextMoonQuarter TT_late ramp_phase
     \<lparr>quarter = 2, mq_time = UniversalTime TT_late 10200\<rparr>
     = Inl ASTRO_WRONG_MOON_QUARTER"
proof -
  let ?n = "\<lparr>quarter = 1, mq_time = UniversalTime TT_late 10207.5\<rparr>"
  let ?a = "\<lparr>quarter = 0, mq_time = UniversalTime TT_late 10200\<rparr>"
  let ?b = "\<lparr>quarter = 2, mq_time = UniversalTime TT_late 10200\<rparr>"
  have t: "Astronomy_AddDays TT_late (UniversalTime TT_late 10200) 6 =
             UniversalTime TT_late 10206"
    by (simp add: Astronomy_AddDays_def UniversalTime_def Let_def)
  have first: "Astronomy_NextMoonQuarter TT_late ramp_phase ?a = Inr ?n"
    by (simp add: Astronomy_NextMoonQuarter_def Let_def t moon_quarter_example smod_4_nonneg)
  have h1: "0 \<le> 1 + quarter ?a \<and> Astronomy_NextMoonQuarter TT_late ramp_phase ?a = Inr ?n"
    using first by simp
  have h2: "0 \<le> 1 + quarter ?b \<and>
        Astronomy_SearchMoonQuarter TT_late ramp_phase
          (Astronomy_AddDays TT_late (mq_time ?b) 6) = Inr ?n \<and>
        quarter ?n \<noteq> (quarter ?b + 1) mod 4"
    by (simp add: t moon_quarter_example)
  from next_moon_quarter_index[of ?a TT_late ramp_phase, THEN conjunct1, rule_format, OF h1]
  have "(1::int) = (0 + 1) mod 4" by simp
  moreover
  from next_moon_quarter_index[of ?b TT_late ramp_phase,
      THEN conjunct2, THEN conjunct1, rule_format, OF h2]
  have "Astronomy_NextMoonQuarter TT_late ramp_phase ?b = Inl ASTRO_WRONG_MOON_QUARTER" .
  ultimately show ?thesis using first by simp
qed


































end
